theory Spec2Isabelle
  imports Main
begin

section \<open>Python values\<close>

text \<open>
  The demo application \<^verbatim>\<open>examples/demo_pythonanywhere_com.py\<close> stores strings, integers,
  dates and timestamps in its columns. A column without a value reads as \<^verbatim>\<open>None\<close>.
\<close>

record datetime =
  dt_year :: nat
  dt_month :: nat
  dt_day :: nat
  dt_hour :: nat
  dt_minute :: nat
  dt_second :: nat
  dt_microsecond :: nat

datatype pyval =
    PNone
  | PStr string
  | PInt int
  | PDate nat nat nat
  | PDateTime datetime

text \<open>A Python \<^verbatim>\<open>dict\<close> with string keys keeps insertion order: an association list.\<close>

type_synonym pydict = "(string \<times> pyval) list"

text \<open>\<^verbatim>\<open>d[k] = v\<close>: an existing key keeps its place, a new key goes last.\<close>

primrec setitem :: "pydict \<Rightarrow> string \<Rightarrow> pyval \<Rightarrow> pydict" where
  "setitem [] k v = [(k, v)]"
| "setitem (p # ps) k v = (if fst p = k then (k, v) # ps else p # setitem ps k v)"

text \<open>\<^verbatim>\<open>d.pop(k, None)\<close>, the dictionary that is left.\<close>

definition pop_key :: "pydict \<Rightarrow> string \<Rightarrow> pydict" where
  "pop_key d k = filter (\<lambda>p. fst p \<noteq> k) d"

definition keys :: "pydict \<Rightarrow> string set" where
  "keys d = fst ` set d"

subsection \<open>\<^verbatim>\<open>str()\<close>\<close>

definition digit :: "nat \<Rightarrow> char" where
  "digit d = ''0123456789'' ! d"

function str_nat :: "nat \<Rightarrow> string" where
  "str_nat n = (if n < 10 then [digit n] else str_nat (n div 10) @ [digit (n mod 10)])"
  by pat_completeness auto
termination
  by (relation "measure (\<lambda>n. n)") auto

declare str_nat.simps [simp del]

definition str_int :: "int \<Rightarrow> string" where
  "str_int i = (if i < 0 then CHR ''-'' # str_nat (nat (- i)) else str_nat (nat i))"

definition zfill :: "nat \<Rightarrow> string \<Rightarrow> string" where
  "zfill w s = replicate (w - length s) CHR ''0'' @ s"

definition str_date :: "nat \<Rightarrow> nat \<Rightarrow> nat \<Rightarrow> string" where
  "str_date y m d =
     zfill 4 (str_nat y) @ ''-'' @ zfill 2 (str_nat m) @ ''-'' @ zfill 2 (str_nat d)"

definition str_datetime :: "datetime \<Rightarrow> string" where
  "str_datetime t =
     str_date (dt_year t) (dt_month t) (dt_day t) @ '' '' @
     zfill 2 (str_nat (dt_hour t)) @ '':'' @ zfill 2 (str_nat (dt_minute t)) @ '':'' @
     zfill 2 (str_nat (dt_second t)) @
     (if dt_microsecond t = 0 then [] else ''.'' @ zfill 6 (str_nat (dt_microsecond t)))"

fun py_str :: "pyval \<Rightarrow> string" where
  "py_str PNone = ''None''"
| "py_str (PStr s) = s"
| "py_str (PInt i) = str_int i"
| "py_str (PDate y m d) = str_date y m d"
| "py_str (PDateTime t) = str_datetime t"

section \<open>The schema layer\<close>

text \<open>
  The three column classes of the source: \<^verbatim>\<open>db.Column\<close> and its two subclasses
  \<^verbatim>\<open>HiddenColumn\<close> (class attribute \<^verbatim>\<open>expose = False\<close>) and \<^verbatim>\<open>DocumentedColumn\<close>.
\<close>

datatype coltype = db_String | db_Text | db_Integer | db_Date | db_DateTime

datatype colclass = db_Column | HiddenColumn | DocumentedColumn

text \<open>
  \<^verbatim>\<open>expose\<close> is declared on \<^verbatim>\<open>HiddenColumn\<close> only; a column class that does not
  declare it is exposed.
\<close>

fun expose :: "colclass \<Rightarrow> bool" where
  "expose HiddenColumn = False"
| "expose db_Column = True"
| "expose DocumentedColumn = True"

record column =
  col_name :: string
  col_type :: coltype
  col_class :: colclass
  primary_key :: bool
  foreign_key :: "(string \<times> string) option"
  col_default :: "pyval option"

definition Column :: "colclass \<Rightarrow> string \<Rightarrow> coltype \<Rightarrow> column" where
  "Column k n t =
     \<lparr>col_name = n, col_type = t, col_class = k, primary_key = False,
      foreign_key = None, col_default = None\<rparr>"

datatype model = Book | Person | Publisher | Review

fun tablename :: "model \<Rightarrow> string" where
  "tablename Book = ''Books''"
| "tablename Person = ''People''"
| "tablename Publisher = ''Publishers''"
| "tablename Review = ''Reviews''"

text \<open>
  The columns of each class, in declaration order. The default of \<^verbatim>\<open>Review.created\<close> is
  written \<^verbatim>\<open>datetime.datetime.now()\<close> in the class body: the call is evaluated once, when
  the class is defined, and its value \<open>import_time\<close> is the default from then on.
\<close>

fun columns :: "datetime \<Rightarrow> model \<Rightarrow> column list" where
  "columns import_time Book =
     [(Column db_Column ''id'' db_String)\<lparr>primary_key := True\<rparr>,
      (Column db_Column ''title'' db_String)\<lparr>col_default := Some (PStr '''')\<rparr>,
      (Column db_Column ''reader_id'' db_String)\<lparr>foreign_key := Some (''People'', ''id'')\<rparr>,
      (Column db_Column ''author_id'' db_String)\<lparr>foreign_key := Some (''People'', ''id'')\<rparr>,
      (Column db_Column ''publisher_id'' db_Integer)
         \<lparr>foreign_key := Some (''Publishers'', ''id'')\<rparr>]"
| "columns import_time Person =
     [(Column db_Column ''id'' db_String)\<lparr>primary_key := True\<rparr>,
      (Column db_Column ''name'' db_String)\<lparr>col_default := Some (PStr '''')\<rparr>,
      (Column db_Column ''email'' db_String)\<lparr>col_default := Some (PStr '''')\<rparr>,
      (Column DocumentedColumn ''comment'' db_Text)\<lparr>col_default := Some (PStr ''comment'')\<rparr>,
      Column db_Column ''dob'' db_Date,
      (Column HiddenColumn ''password'' db_String)\<lparr>col_default := Some (PStr '''')\<rparr>]"
| "columns import_time Publisher =
     [(Column db_Column ''id'' db_Integer)\<lparr>primary_key := True\<rparr>,
      (Column db_Column ''name'' db_String)\<lparr>col_default := Some (PStr '''')\<rparr>]"
| "columns import_time Review =
     [(Column db_Column ''reader_id'' db_String)
         \<lparr>primary_key := True, foreign_key := Some (''People'', ''id'')\<rparr>,
      (Column db_Column ''book_id'' db_String)
         \<lparr>primary_key := True, foreign_key := Some (''Books'', ''id'')\<rparr>,
      (Column db_Column ''review'' db_String)\<lparr>col_default := Some (PStr '''')\<rparr>,
      (Column db_Column ''created'' db_DateTime)
         \<lparr>col_default := Some (PDateTime import_time)\<rparr>]"

definition column_names :: "datetime \<Rightarrow> model \<Rightarrow> string list" where
  "column_names import_time m = map col_name (columns import_time m)"

section \<open>Instances\<close>

text \<open>An instance of a model class: its column attributes.\<close>

type_synonym attrs = pydict

definition getattr :: "attrs \<Rightarrow> string \<Rightarrow> pyval" where
  "getattr self n = (case map_of self n of Some v \<Rightarrow> v | None \<Rightarrow> PNone)"

text \<open>What lies outside the program: the UUID generator, SHA-256 and the time of import.\<close>

record environment =
  uuid4 :: "nat \<Rightarrow> string"
  sha256_hexdigest :: "nat list \<Rightarrow> string"
  import_time :: datetime

text \<open>
  Modelled from the spec: \<^verbatim>\<open>SAFRSBase.__init__\<close> is not part of the demo file. Every
  entity has an identity and fields with declared defaults (spec, section 3): each column takes
  the keyword argument of its name, else its declared default, else \<^verbatim>\<open>None\<close>; a string
  identity \<^verbatim>\<open>id\<close> that was not given is generated. \<open>n\<close> counts the identities generated
  so far.
\<close>

definition init_attr :: "pydict \<Rightarrow> column \<Rightarrow> pyval" where
  "init_attr kwargs c =
     (case map_of kwargs (col_name c) of
        Some v \<Rightarrow> (if v = PNone then (case col_default c of Some d \<Rightarrow> d | None \<Rightarrow> PNone) else v)
      | None \<Rightarrow> (case col_default c of Some d \<Rightarrow> d | None \<Rightarrow> PNone))"

definition generates_id :: "datetime \<Rightarrow> model \<Rightarrow> bool" where
  "generates_id t0 m =
     (\<exists>c \<in> set (columns t0 m). col_name c = ''id'' \<and> col_type c = db_String \<and> primary_key c)"

definition SAFRSBase_init :: "environment \<Rightarrow> model \<Rightarrow> pydict \<Rightarrow> nat \<Rightarrow> attrs \<times> nat" where
  "SAFRSBase_init env m kwargs n =
     (let self = map (\<lambda>c. (col_name c, init_attr kwargs c)) (columns (import_time env) m)
      in if generates_id (import_time env) m \<and> getattr self ''id'' = PNone
         then (setitem self ''id'' (PStr (uuid4 env n)), Suc n)
         else (self, n))"

text \<open>\<^verbatim>\<open>Publisher.__init__\<close>: drops \<^verbatim>\<open>custom_field\<close> and calls the base initialiser.\<close>

definition Publisher_init :: "environment \<Rightarrow> pydict \<Rightarrow> nat \<Rightarrow> attrs \<times> nat" where
  "Publisher_init env kwargs n = SAFRSBase_init env Publisher (pop_key kwargs ''custom_field'') n"

fun new_instance :: "environment \<Rightarrow> model \<Rightarrow> pydict \<Rightarrow> nat \<Rightarrow> attrs \<times> nat" where
  "new_instance env Publisher kwargs n = Publisher_init env kwargs n"
| "new_instance env m kwargs n = SAFRSBase_init env m kwargs n"

section \<open>Serialization\<close>

text \<open>
  Modelled from the spec: \<^verbatim>\<open>SAFRSBase.to_dict\<close> is not part of the demo file. "Fields
  marked non-exposed must be excluded from every serialized payload and from the generated
  documentation" (spec, section 4.1): the payload has the exposed columns, in declaration order.
\<close>

definition SAFRSBase_to_dict :: "datetime \<Rightarrow> model \<Rightarrow> attrs \<Rightarrow> pydict" where
  "SAFRSBase_to_dict t0 m self =
     map (\<lambda>c. (col_name c, getattr self (col_name c)))
       (filter (\<lambda>c. expose (col_class c)) (columns t0 m))"

text \<open>
  \<^verbatim>\<open>Publisher.to_dict\<close>, with the base serializer it calls as a parameter:
  \<^verbatim>\<open>result = SAFRSBase.to_dict(self); result["custom_field"] = "some customization"\<close>.
\<close>

definition Publisher_to_dict :: "(attrs \<Rightarrow> pydict) \<Rightarrow> attrs \<Rightarrow> pydict" where
  "Publisher_to_dict base_to_dict self =
     setitem (base_to_dict self) ''custom_field'' (PStr ''some customization'')"

text \<open>Method resolution: \<^verbatim>\<open>Publisher\<close> overrides \<^verbatim>\<open>to_dict\<close>, the other classes inherit it.\<close>

fun to_dict :: "datetime \<Rightarrow> model \<Rightarrow> attrs \<Rightarrow> pydict" where
  "to_dict t0 Publisher self = Publisher_to_dict (SAFRSBase_to_dict t0 Publisher) self"
| "to_dict t0 m self = SAFRSBase_to_dict t0 m self"

text \<open>
  Modelled from the spec: the documentation layer is not part of the demo file. The generated
  description of an entity lists its exposed fields (spec, section 4.1).
\<close>

definition swagger_properties :: "datetime \<Rightarrow> model \<Rightarrow> string list" where
  "swagger_properties t0 m =
     map col_name (filter (\<lambda>c. expose (col_class c)) (columns t0 m))"

section \<open>The world the program runs in\<close>

datatype exn =
    OSError string
  | ValidationError string
  | IntegrityError string

datatype printed = PrintArgs "pyval list" | PrintKwargs pydict

text \<open>The tables of the database, one list of rows per model class, in insertion order.\<close>

type_synonym store = "model \<Rightarrow> attrs list"

record world =
  db :: store
  uuids :: nat
  files :: "string \<rightharpoonup> string"
  denied :: "string set"
  logged :: "exn list"
  stdout :: "printed list"

section \<open>Custom operations of \<^verbatim>\<open>Person\<close>\<close>

text \<open>
  \<^verbatim>\<open>open(path, "a+")\<close> creates a missing file and fails with \<^verbatim>\<open>OSError\<close> where the
  path cannot be opened for writing (\<open>denied\<close>); \<^verbatim>\<open>write\<close> appends.
\<close>

definition file_text :: "world \<Rightarrow> string \<Rightarrow> string" where
  "file_text w path = (case files w path of None \<Rightarrow> [] | Some s \<Rightarrow> s)"

definition open_append :: "world \<Rightarrow> string \<Rightarrow> exn + world" where
  "open_append w path =
     (if path \<in> denied w then Inl (OSError path)
      else Inr (w\<lparr>files := (files w)(path \<mapsto> file_text w path)\<rparr>))"

definition write_file :: "world \<Rightarrow> string \<Rightarrow> string \<Rightarrow> world" where
  "write_file w path s = w\<lparr>files := (files w)(path \<mapsto> file_text w path @ s)\<rparr>"

text \<open>What a custom operation hands back: a plain dictionary or a formatted response.\<close>

record jsonapi_document =
  doc_data :: "pydict list"
  doc_meta :: pydict
  doc_links :: pydict
  doc_errors :: pyval
  doc_count :: nat

record SAFRSFormattedResponse =
  response :: "jsonapi_document option"

datatype rpc_result = RDict pydict | RFormatted SAFRSFormattedResponse

text \<open>
  \<^verbatim>\<open>Person.send_mail(self, email)\<close>. An exception of \<^verbatim>\<open>open\<close> is not caught: it leaves
  the operation (\<open>Inl\<close>).
\<close>

definition send_mail :: "attrs \<Rightarrow> string \<Rightarrow> world \<Rightarrow> (exn + rpc_result) \<times> world" where
  "send_mail self email w =
     (let content = ''Mail to '' @ py_str (getattr self ''name'') @ '' : '' @ email @ [CHR 0x0A]
      in case open_append w ''/tmp/mail.txt'' of
           Inl exc \<Rightarrow> (Inl exc, w)
         | Inr w1 \<Rightarrow>
             (Inr (RDict [(''result'', PStr (''sent '' @ content))]),
              write_file w1 ''/tmp/mail.txt'' content))"

text \<open>
  \<^verbatim>\<open>Person.my_rpc(cls, *args, **kwargs)\<close>. \<^verbatim>\<open>paginate\<close> and
  \<^verbatim>\<open>jsonapi_format_response\<close> are imported from the framework and are parameters here;
  either may raise. The \<^verbatim>\<open>try\<close> block catches every exception, logs it, and the
  response object is returned as it was constructed.
\<close>

definition my_rpc ::
  "(attrs list \<Rightarrow> exn + pydict \<times> attrs list \<times> nat) \<Rightarrow>
   (attrs list \<Rightarrow> pydict \<Rightarrow> pydict \<Rightarrow> pyval \<Rightarrow> nat \<Rightarrow> exn + jsonapi_document) \<Rightarrow>
   model \<Rightarrow> pyval list \<Rightarrow> pydict \<Rightarrow> world \<Rightarrow> (exn + rpc_result) \<times> world" where
  "my_rpc paginate jsonapi_format_response cls args kwargs w =
     (let w1 = w\<lparr>stdout := stdout w @ [PrintArgs args, PrintKwargs kwargs]\<rparr>;
          result = cls;
          resp = \<lparr>response = None\<rparr>
      in case (case paginate (db w1 result) of
                 Inl exc \<Rightarrow> Inl exc
               | Inr (links, instances, count) \<Rightarrow>
                   jsonapi_format_response instances [] links PNone count) of
           Inl exc \<Rightarrow> (Inr (RFormatted resp), w1\<lparr>logged := logged w1 @ [exc]\<rparr>)
         | Inr doc \<Rightarrow> (Inr (RFormatted (resp\<lparr>response := Some doc\<rparr>)), w1))"

section \<open>The persistence layer\<close>

definition identity :: "datetime \<Rightarrow> model \<Rightarrow> attrs \<Rightarrow> pyval list" where
  "identity t0 m self =
     map (\<lambda>c. getattr self (col_name c)) (filter primary_key (columns t0 m))"

text \<open>
  Modelled from the spec: the storage engine is outside the demo file. \<^verbatim>\<open>Publisher\<close> has a
  numeric identity (spec, section 3) that the source never sets: an integer identity that was
  not given is assigned on insertion, one past the largest in the table.
\<close>

definition next_rowid :: "attrs list \<Rightarrow> int" where
  "next_rowid rows =
     fold (\<lambda>r a. case getattr r ''id'' of PInt i \<Rightarrow> max a (i + 1) | _ \<Rightarrow> a) rows 1"

definition autoincrement :: "datetime \<Rightarrow> model \<Rightarrow> store \<Rightarrow> attrs \<Rightarrow> attrs" where
  "autoincrement t0 m st self =
     (if (\<exists>c \<in> set (columns t0 m). col_name c = ''id'' \<and> col_type c = db_Integer \<and> primary_key c)
         \<and> getattr self ''id'' = PNone
      then setitem self ''id'' (PInt (next_rowid (st m)))
      else self)"

text \<open>
  Modelled from the spec: the storage engine is outside the demo file. A primary key is never
  null, and "a Review's composite key is unique per (reader, book) pair" (spec, section 3): a row
  whose identity is null or already in its table is refused, and the store stays as it was.
  Whether a foreign key names an existing row is not checked here: that depends on how the
  engine is configured, which the demo file does not show.
\<close>

definition insert_row :: "datetime \<Rightarrow> model \<Rightarrow> attrs \<Rightarrow> store \<Rightarrow> exn + attrs \<times> store" where
  "insert_row t0 m self st =
     (let row = autoincrement t0 m st self in
      if PNone \<in> set (identity t0 m row)
        then Inl (IntegrityError ''NOT NULL constraint failed'')
      else if identity t0 m row \<in> set (map (identity t0 m) (st m))
        then Inl (IntegrityError ''UNIQUE constraint failed'')
      else Inr (row, st(m := st m @ [row])))"

section \<open>The seed routine of \<^verbatim>\<open>start_api\<close>\<close>

definition NR_INSTANCES :: nat where
  "NR_INSTANCES = 200"

text \<open>
  One pass of the loop body. The five objects are constructed in the order of the source; the
  three \<^verbatim>\<open>append\<close> calls link the book to its publisher, reader and author, which sets the
  book's foreign keys when the session is flushed. \<^verbatim>\<open>db.session.commit()\<close> writes parents
  before children (people and publisher, then the book, then the review); an exception of the
  store leaves \<^verbatim>\<open>start_api\<close>.
\<close>

definition seed_iteration :: "environment \<Rightarrow> nat \<Rightarrow> world \<Rightarrow> exn + world" where
  "seed_iteration env i w =
     (let t0 = import_time env;
          secret = sha256_hexdigest env (replicate i 0);
          (reader, n1) = new_instance env Person
             [(''name'', PStr (''Reader '' @ str_nat i)),
              (''email'', PStr (''reader_email'' @ str_nat i)),
              (''password'', PStr secret)] (uuids w);
          (author, n2) = new_instance env Person
             [(''name'', PStr (''Author '' @ str_nat i)),
              (''email'', PStr (''author_email'' @ str_nat i))] n1;
          (book, n3) = new_instance env Book [(''title'', PStr (''book_title'' @ str_nat i))] n2;
          (review, n4) = new_instance env Review
             [(''reader_id'', getattr reader ''id''),
              (''book_id'', getattr book ''id''),
              (''review'', PStr (''review '' @ str_nat i))] n3;
          (publisher, n5) = new_instance env Publisher [(''name'', PStr (''name'' @ str_nat i))] n4
      in case insert_row t0 Person reader (db w) of Inl exc \<Rightarrow> Inl exc | Inr (reader', s1) \<Rightarrow>
         (case insert_row t0 Person author s1 of Inl exc \<Rightarrow> Inl exc | Inr (author', s2) \<Rightarrow>
         (case insert_row t0 Publisher publisher s2 of Inl exc \<Rightarrow> Inl exc | Inr (publisher', s3) \<Rightarrow>
         (let book1 = setitem book ''publisher_id'' (getattr publisher' ''id'');
              book2 = setitem book1 ''reader_id'' (getattr reader' ''id'');
              book3 = setitem book2 ''author_id'' (getattr author' ''id'')
          in case insert_row t0 Book book3 s3 of Inl exc \<Rightarrow> Inl exc | Inr (book', s4) \<Rightarrow>
         (case insert_row t0 Review review s4 of Inl exc \<Rightarrow> Inl exc | Inr (review', s5) \<Rightarrow>
            Inr (w\<lparr>db := s5, uuids := n5\<rparr>))))))"

text \<open>\<^verbatim>\<open>for i in range(n)\<close>, stopped by the first exception.\<close>

fun for_each :: "('a \<Rightarrow> 's \<Rightarrow> 'e + 's) \<Rightarrow> 'a list \<Rightarrow> 's \<Rightarrow> 'e + 's" where
  "for_each f [] s = Inr s"
| "for_each f (x # xs) s = (case f x s of Inl e \<Rightarrow> Inl e | Inr s' \<Rightarrow> for_each f xs s')"

definition seed :: "environment \<Rightarrow> nat \<Rightarrow> world \<Rightarrow> exn + world" where
  "seed env n w = for_each (seed_iteration env) [0..<n] w"

text \<open>
  \<^verbatim>\<open>db.create_all()\<close> on the in-memory database of the configuration: empty tables.
\<close>

definition create_all :: "world \<Rightarrow> world" where
  "create_all w = w\<lparr>db := (\<lambda>m. [])\<rparr>"

definition start_api :: "environment \<Rightarrow> world \<Rightarrow> exn + world" where
  "start_api env w = seed env NR_INSTANCES (create_all w)"

section \<open>The exposure layer\<close>

text \<open>
  \<^verbatim>\<open>Review.http_methods = {"GET", "POST"}\<close> ("only allow GET and POST"). The other classes
  inherit the attribute. Modelled from the spec: the inherited value is not part of the demo
  file; the HTTP surface of a resource is GET, POST, PATCH and DELETE (spec, section 6).
\<close>

definition SAFRSBase_http_methods :: "string set" where
  "SAFRSBase_http_methods = {''GET'', ''POST'', ''PATCH'', ''DELETE''}"

fun http_methods :: "model \<Rightarrow> string set" where
  "http_methods Review = {''GET'', ''POST''}"
| "http_methods Book = SAFRSBase_http_methods"
| "http_methods Person = SAFRSBase_http_methods"
| "http_methods Publisher = SAFRSBase_http_methods"

text \<open>
  Modelled from the spec: the routing of the framework is not part of the demo file. A
  resource is "restricted to a subset of HTTP verbs" (spec, section 3): a request is accepted
  when its verb is one of the \<^verbatim>\<open>http_methods\<close> of the class.
\<close>

definition method_allowed :: "model \<Rightarrow> string \<Rightarrow> bool" where
  "method_allowed m verb = (verb \<in> http_methods m)"

record page_request =
  page_offset :: int
  page_limit :: int

text \<open>
  Modelled from the spec: \<^verbatim>\<open>paginate\<close> is not part of the demo file. "Collection endpoints
  accept a page-size/offset parameter; response includes total count and next/previous links",
  and invalid arguments "yield a client error with a descriptive message" (spec, section 4.1).
  A page is \<open>page_limit\<close> rows of the query from row \<open>page_offset\<close> on.
\<close>

definition page_links :: "nat \<Rightarrow> nat \<Rightarrow> nat \<Rightarrow> pydict" where
  "page_links off lim count =
     [(''prev'', if off = 0 then PNone else PInt (int (off - lim))),
      (''next'', if off + lim < count then PInt (int (off + lim)) else PNone)]"

definition paginate :: "page_request \<Rightarrow> attrs list \<Rightarrow> exn + pydict \<times> attrs list \<times> nat" where
  "paginate rq query =
     (if page_offset rq < 0 \<or> page_limit rq \<le> 0
      then Inl (ValidationError ''Pagination Value Error'')
      else let off = nat (page_offset rq); lim = nat (page_limit rq); count = length query
           in Inr (page_links off lim count, take lim (drop off query), count))"

text \<open>
  Modelled from the spec: \<^verbatim>\<open>jsonapi_format_response\<close> is not part of the demo file. The
  response envelope carries the serialized instances, the meta data, the links, the errors and
  the total count.
\<close>

definition jsonapi_format_response ::
  "datetime \<Rightarrow> model \<Rightarrow> attrs list \<Rightarrow> pydict \<Rightarrow> pydict \<Rightarrow> pyval \<Rightarrow> nat \<Rightarrow> exn + jsonapi_document" where
  "jsonapi_format_response t0 cls data meta links errors count =
     Inr \<lparr>doc_data = map (to_dict t0 cls) data, doc_meta = meta, doc_links = links,
          doc_errors = errors, doc_count = count\<rparr>"

datatype http_response =
    Ok jsonapi_document
  | Created pydict
  | RpcOk rpc_result
  | ClientError string
  | ServerError string
  | MethodNotAllowed

fun exn_message :: "exn \<Rightarrow> string" where
  "exn_message (OSError s) = s"
| "exn_message (ValidationError s) = s"
| "exn_message (IntegrityError s) = s"

text \<open>
  Modelled from the spec: the collection endpoint \<^verbatim>\<open>GET /api/<Resource>\<close> (spec, sections
  4.1 and 6): the rows of the table that pass the filter, in stored order, cut into a page.
\<close>

definition api_get ::
  "environment \<Rightarrow> model \<Rightarrow> (attrs \<Rightarrow> bool) \<Rightarrow> page_request \<Rightarrow> world \<Rightarrow> http_response \<times> world" where
  "api_get env m flt rq w =
     (case paginate rq (filter flt (db w m)) of
        Inl exc \<Rightarrow> (ClientError (exn_message exc), w)
      | Inr (links, instances, count) \<Rightarrow>
          (case jsonapi_format_response (import_time env) m instances [] links PNone count of
             Inl exc \<Rightarrow> (ServerError ''Internal Server Error'', w\<lparr>logged := logged w @ [exc]\<rparr>)
           | Inr doc \<Rightarrow> (Ok doc, w)))"

text \<open>
  Modelled from the spec: \<^verbatim>\<open>POST /api/<Resource>\<close> creates an instance from the
  attributes of the request and stores it; a row the store refuses is a client error with the
  message of the store, and the store is left as it was.
\<close>

definition api_post :: "environment \<Rightarrow> model \<Rightarrow> pydict \<Rightarrow> world \<Rightarrow> http_response \<times> world" where
  "api_post env m kwargs w =
     (let (self, n) = new_instance env m kwargs (uuids w)
      in case insert_row (import_time env) m self (db w) of
           Inl exc \<Rightarrow> (ClientError (exn_message exc), w\<lparr>uuids := n\<rparr>)
         | Inr (row, st) \<Rightarrow> (Created (to_dict (import_time env) m row), w\<lparr>db := st, uuids := n\<rparr>))"

record request =
  rq_verb :: string
  rq_resource :: model
  rq_body :: pydict
  rq_filter :: "attrs \<Rightarrow> bool"
  rq_page :: page_request

text \<open>Modelled from the spec: the collection route, gated by the verbs of the class.\<close>

definition collection_request :: "environment \<Rightarrow> request \<Rightarrow> world \<Rightarrow> http_response \<times> world" where
  "collection_request env rq w =
     (if method_allowed (rq_resource rq) (rq_verb rq) \<and> rq_verb rq = ''GET''
        then api_get env (rq_resource rq) (rq_filter rq) (rq_page rq) w
      else if method_allowed (rq_resource rq) (rq_verb rq) \<and> rq_verb rq = ''POST''
        then api_post env (rq_resource rq) (rq_body rq) w
      else (MethodNotAllowed, w))"

text \<open>
  Modelled from the spec: the framework's call of a custom operation. "The operation's return
  value is wrapped in the standard response envelope"; an exception that leaves the operation
  is "logged, generic server error returned, process continues" (spec, sections 4.1 and 7).
\<close>

definition call_rpc :: "(exn + rpc_result) \<times> world \<Rightarrow> http_response \<times> world" where
  "call_rpc out =
     (case out of
        (Inl exc, w) \<Rightarrow> (ServerError ''Internal Server Error'', w\<lparr>logged := logged w @ [exc]\<rparr>)
      | (Inr r, w) \<Rightarrow> (RpcOk r, w))"

text \<open>
  The identities on page \<open>N\<close> of a query cut into pages of \<open>L\<close> rows: what \<^verbatim>\<open>paginate\<close>
  returns for the offset \<open>N * L\<close>.
\<close>

definition page_ids :: "datetime \<Rightarrow> model \<Rightarrow> nat \<Rightarrow> nat \<Rightarrow> attrs list \<Rightarrow> pyval list set" where
  "page_ids t0 m L N query =
     (case paginate \<lparr>page_offset = int (N * L), page_limit = int L\<rparr> query of
        Inl exc \<Rightarrow> {}
      | Inr (links, instances, count) \<Rightarrow> set (map (identity t0 m) instances))"

text \<open>The operations that act on the world, and the world each leaves behind.\<close>

datatype operation =
    Collection request
  | SendMail attrs string
  | MyRpc "pyval list" pydict page_request
  | SeedIteration nat

fun perform :: "environment \<Rightarrow> operation \<Rightarrow> world \<Rightarrow> world" where
  "perform env (Collection rq) w = snd (collection_request env rq w)"
| "perform env (SendMail self email) w = snd (call_rpc (send_mail self email w))"
| "perform env (MyRpc args kwargs rq) w =
     snd (call_rpc (my_rpc (paginate rq) (jsonapi_format_response (import_time env) Person)
                      Person args kwargs w))"
| "perform env (SeedIteration i) w =
     (case seed_iteration env i w of Inl exc \<Rightarrow> w | Inr w' \<Rightarrow> w')"

text \<open>The total that a collection response reports.\<close>

fun total_count :: "http_response \<Rightarrow> nat option" where
  "total_count (Ok doc) = Some (doc_count doc)"
| "total_count _ = None"

text \<open>
  The total that the collection endpoint of a class reports once start-up has ended; nothing
  when start-up failed.
\<close>

definition collection_total :: "environment \<Rightarrow> model \<Rightarrow> exn + world \<Rightarrow> nat option" where
  "collection_total env m started =
     (case started of
        Inl exc \<Rightarrow> None
      | Inr w \<Rightarrow>
          total_count (fst (api_get env m (\<lambda>r. True) \<lparr>page_offset = 0, page_limit = 1\<rparr> w)))"

text \<open>
  Every string identity in the store, and the book of every review, is one of the identifiers
  generated so far.
\<close>

definition ids_drawn :: "environment \<Rightarrow> world \<Rightarrow> bool" where
  "ids_drawn env w =
     ((\<forall>r \<in> set (db w Person). \<exists>j < uuids w. getattr r ''id'' = PStr (uuid4 env j)) \<and>
      (\<forall>r \<in> set (db w Book). \<exists>j < uuids w. getattr r ''id'' = PStr (uuid4 env j)) \<and>
      (\<forall>r \<in> set (db w Review). \<exists>j < uuids w. getattr r ''book_id'' = PStr (uuid4 env j)))"

text \<open>No two rows of a table have the same identity.\<close>

definition identities_unique :: "datetime \<Rightarrow> model \<Rightarrow> store \<Rightarrow> bool" where
  "identities_unique t0 m st = distinct (map (identity t0 m) (st m))"

text \<open>A deterministic environment for concrete runs.\<close>

definition test_env :: environment where
  "test_env =
     \<lparr>uuid4 = (\<lambda>k. replicate (Suc k) CHR ''a''),
      sha256_hexdigest = (\<lambda>bs. str_nat (length bs)),
      import_time = \<lparr>dt_year = 2019, dt_month = 1, dt_day = 1, dt_hour = 0, dt_minute = 0,
                     dt_second = 0, dt_microsecond = 0\<rparr>\<rparr>"

definition empty_world :: world where
  "empty_world =
     \<lparr>db = (\<lambda>m. []), uuids = 0, files = Map.empty, denied = {}, logged = [], stdout = []\<rparr>"

section \<open>Properties\<close>

subsection \<open>Dictionaries\<close>

lemma setitem_new: "k \<notin> keys d \<Longrightarrow> setitem d k v = d @ [(k, v)]"
  by (induction d) (auto simp: keys_def)

subsection \<open>\<^verbatim>\<open>Publisher.to_dict\<close>\<close>

text \<open>
  Claim C7. Serializing a Publisher yields the base serialization of its columns followed by
  exactly one more field, \<^verbatim>\<open>custom_field\<close>, with the value "some customization"; every
  field of the base serialization is kept with its value. The base serializer is any function
  whose keys are columns of \<^verbatim>\<open>Publisher\<close>.
\<close>

theorem Publisher_to_dict_extends_base:
  assumes "keys (base self) \<subseteq> set (column_names t0 Publisher)"
  shows "Publisher_to_dict base self
           = base self @ [(''custom_field'', PStr ''some customization'')]
       \<and> ''custom_field'' \<notin> keys (base self)
       \<and> map_of (Publisher_to_dict base self) ''custom_field''
           = Some (PStr ''some customization'')
       \<and> (\<forall>k. k \<noteq> ''custom_field'' \<longrightarrow>
             map_of (Publisher_to_dict base self) k = map_of (base self) k)"
proof -
  have fresh: "''custom_field'' \<notin> keys (base self)"
    using assms by (auto simp: column_names_def Column_def)
  then have app: "Publisher_to_dict base self
      = base self @ [(''custom_field'', PStr ''some customization'')]"
    by (simp add: Publisher_to_dict_def setitem_new)
  have "map_of (base self) ''custom_field'' = None"
    using fresh by (simp add: keys_def map_of_eq_None_iff)
  then show ?thesis
    using fresh app by (auto simp: map_add_def split: option.splits)
qed

theorem Publisher_to_dict_extends_base_witness:
  "to_dict (import_time test_env) Publisher [(''id'', PInt 1), (''name'', PStr ''name0'')]
     = [(''id'', PInt 1), (''name'', PStr ''name0''),
        (''custom_field'', PStr ''some customization'')]"
  using Publisher_to_dict_extends_base
    [of "SAFRSBase_to_dict (import_time test_env) Publisher"
        "[(''id'', PInt 1), (''name'', PStr ''name0'')]" "import_time test_env"]
  by (simp add: SAFRSBase_to_dict_def column_names_def Column_def keys_def getattr_def)

subsection \<open>\<^verbatim>\<open>Person.send_mail\<close>\<close>

text \<open>
  Claim C10. For every Person \<open>p\<close> and every string \<open>email\<close>, \<^verbatim>\<open>send_mail\<close> returns
  \<^verbatim>\<open>{"result": "sent Mail to <p.name> : <email>\n"}\<close> and appends exactly
  \<^verbatim>\<open>"Mail to <p.name> : <email>\n"\<close> to \<^verbatim>\<open>/tmp/mail.txt\<close>; the store, the log and every
  other file stay as they were. The file can be opened for appending.
\<close>

theorem send_mail_appends:
  assumes "''/tmp/mail.txt'' \<notin> denied w"
  shows "send_mail p email w =
     (Inr (RDict [(''result'',
            PStr (''sent Mail to '' @ py_str (getattr p ''name'') @ '' : '' @ email
                    @ [CHR 0x0A]))]),
      w\<lparr>files := (files w)(''/tmp/mail.txt'' \<mapsto>
            file_text w ''/tmp/mail.txt'' @
            ''Mail to '' @ py_str (getattr p ''name'') @ '' : '' @ email @ [CHR 0x0A])\<rparr>)"
  using assms
  by (simp add: send_mail_def open_append_def write_file_def file_text_def Let_def)

theorem send_mail_appends_witness:
  "send_mail [(''id'', PStr ''a''), (''name'', PStr ''Reader 0'')] ''x@y.z'' empty_world =
     (Inr (RDict [(''result'', PStr (''sent Mail to Reader 0 : x@y.z'' @ [CHR 0x0A]))]),
      empty_world\<lparr>files := [''/tmp/mail.txt'' \<mapsto> ''Mail to Reader 0 : x@y.z'' @ [CHR 0x0A]]\<rparr>)"
  using send_mail_appends
    [of empty_world "[(''id'', PStr ''a''), (''name'', PStr ''Reader 0'')]" "''x@y.z''"]
  by (simp add: empty_world_def getattr_def file_text_def)

subsection \<open>\<^verbatim>\<open>Review.created\<close>\<close>

text \<open>
  Claim C9 says that a Review created without a \<^verbatim>\<open>created\<close> value records the time of its
  own creation. The default is the value \<^verbatim>\<open>datetime.datetime.now()\<close> had when the class was
  defined: every such Review gets that one timestamp, whenever it is created.
\<close>

theorem Review_created_default_is_import_time:
  "getattr (fst (new_instance env Review
        [(''reader_id'', reader_id), (''book_id'', book_id), (''review'', text)] n)) ''created''
     = PDateTime (import_time env)"
  by (simp add: SAFRSBase_init_def generates_id_def init_attr_def Column_def getattr_def
        Let_def)

subsection \<open>\<^verbatim>\<open>Person.my_rpc\<close>\<close>



lemma my_rpc_ok:
  "pg (db w cls) = Inr (links, instances, count) \<Longrightarrow>
   fmt instances [] links PNone count = Inr doc \<Longrightarrow>
      my_rpc pg fmt cls args kwargs w =
        (Inr (RFormatted \<lparr>response = Some doc\<rparr>),
         w\<lparr>stdout := stdout w @ [PrintArgs args, PrintKwargs kwargs]\<rparr>)"
  by (simp add: my_rpc_def Let_def)

lemma my_rpc_returns:
  "\<exists>r w'. my_rpc pg fmt cls args kwargs w = (Inr (RFormatted r), w') \<and> db w' = db w
      \<and> files w' = files w"
  by (cases "pg (db w cls)")
     (auto simp: my_rpc_def Let_def split: sum.splits prod.splits)





subsection \<open>The verbs of \<^verbatim>\<open>Review\<close>\<close>










subsection \<open>Hidden columns\<close>

lemma hidden_column_is_password:
  assumes "c \<in> set (columns t0 m)" "\<not> expose (col_class c)"
  shows "m = Person \<and> col_name c = ''password''"
  using assms by (cases m) (auto simp: Column_def)

lemma password_not_in_Person_dict: "''password'' \<notin> keys (to_dict t0 Person self)"
  by (simp add: SAFRSBase_to_dict_def keys_def Column_def)

lemma password_not_in_Person_swagger: "''password'' \<notin> set (swagger_properties t0 Person)"
  by (simp add: swagger_properties_def Column_def)

lemma api_get_data:
  "fst (api_get env m flt rq w) = Ok doc \<Longrightarrow> d \<in> set (doc_data doc) \<Longrightarrow>
     \<exists>self. d = to_dict (import_time env) m self"
  by (auto simp: api_get_def paginate_def jsonapi_format_response_def Let_def
        split: if_splits)

lemma api_post_data:
  "fst (api_post env m kwargs w) = Created d \<Longrightarrow> \<exists>self. d = to_dict (import_time env) m self"
  by (cases "new_instance env m kwargs (uuids w)")
     (auto simp: api_post_def split: sum.splits prod.splits)


text \<open>
  Claim C1. For every entity, no field whose column is flagged non-exposed (\<^verbatim>\<open>expose = False\<close>,
  as \<^verbatim>\<open>Person.password\<close> is) appears in a serialized representation: not in the dictionary
  of an instance, not in the documented properties, not in the data of a collection response, and
  not in the answer to a creation.
\<close>

theorem hidden_columns_never_serialized:
  assumes "c \<in> set (columns (import_time env) m)" and "\<not> expose (col_class c)"
  shows "col_name c \<notin> keys (to_dict (import_time env) m self)
       \<and> col_name c \<notin> set (swagger_properties (import_time env) m)
       \<and> (\<forall>doc d. fst (api_get env m flt rq w) = Ok doc \<and> d \<in> set (doc_data doc)
              \<longrightarrow> col_name c \<notin> keys d)
       \<and> (\<forall>d. fst (api_post env m kwargs w) = Created d \<longrightarrow> col_name c \<notin> keys d)"
proof -
  have m: "m = Person" and n: "col_name c = ''password''"
    using hidden_column_is_password [OF assms] by simp_all
  have get: "col_name c \<notin> keys d"
    if "fst (api_get env m flt rq w) = Ok doc" "d \<in> set (doc_data doc)" for doc d
    using api_get_data [OF that] m n password_not_in_Person_dict by auto
  have post: "col_name c \<notin> keys d" if "fst (api_post env m kwargs w) = Created d" for d
    using api_post_data [OF that] m n password_not_in_Person_dict by auto
  have "col_name c \<notin> keys (to_dict (import_time env) m self)"
    using m n password_not_in_Person_dict by simp
  moreover have "col_name c \<notin> set (swagger_properties (import_time env) m)"
    using m n password_not_in_Person_swagger by simp
  ultimately show ?thesis
    using get post by blast
qed

theorem hidden_columns_never_serialized_witness:
  "''password'' \<notin> keys (to_dict (import_time test_env) Person
        [(''id'', PStr ''a''), (''name'', PStr ''Reader 0''), (''password'', PStr ''s3cret'')])
   \<and> ''password'' \<notin> set (swagger_properties (import_time test_env) Person)"
  using hidden_columns_never_serialized
    [of "(Column HiddenColumn ''password'' db_String)\<lparr>col_default := Some (PStr [])\<rparr>"
        test_env Person
        "[(''id'', PStr ''a''), (''name'', PStr ''Reader 0''), (''password'', PStr ''s3cret'')]"]
  by (simp add: Column_def)

subsection \<open>Pagination\<close>

lemma paginate_valid:
  "0 < L \<Longrightarrow> paginate \<lparr>page_offset = int k, page_limit = int L\<rparr> query
     = Inr (page_links k L (length query), take L (drop k query), length query)"
  by (simp add: paginate_def Let_def)

lemma page_ids_eq:
  "0 < L \<Longrightarrow> page_ids t0 m L N query = set (take L (drop (N * L) (map (identity t0 m) query)))"
  unfolding page_ids_def by (simp only: paginate_valid) (simp add: take_map drop_map)

lemma take_drop_disjoint:
  assumes "distinct ys"
  shows "set (take L (drop k ys)) \<inter> set (take L (drop (L + k) ys)) = {}"
proof -
  have d: "distinct (drop k ys)" using assms by simp
  have "set (take L (drop k ys)) \<inter> set (drop L (drop k ys)) = {}"
    using d by (metis append_take_drop_id distinct_append)
  moreover have "set (take L (drop (L + k) ys)) \<subseteq> set (drop L (drop k ys))"
    by (simp add: set_take_subset)
  ultimately show ?thesis by blast
qed

lemma nth_in_window:
  assumes "k \<le> i" "i < k + L" "i < length ys"
  shows "ys ! i \<in> set (take L (drop k ys))"
proof -
  have b: "i - k < L" "i - k < length ys - k" "k + (i - k) = i" using assms by arith+
  have a: "i - k < length (take L (drop k ys))" using b by simp
  have "take L (drop k ys) ! (i - k) = ys ! i" using b assms by simp
  then show ?thesis using a by (metis nth_mem)
qed

lemma pages_cover:
  assumes "0 < L"
  shows "(\<Union>N. set (take L (drop (N * L) ys))) = set ys"
proof
  show "(\<Union>N. set (take L (drop (N * L) ys))) \<subseteq> set ys"
    by (auto dest: in_set_takeD in_set_dropD)
next
  show "set ys \<subseteq> (\<Union>N. set (take L (drop (N * L) ys)))"
  proof
    fix y assume "y \<in> set ys"
    then obtain i where i: "i < length ys" "ys ! i = y" by (auto simp: in_set_conv_nth)
    define k where "k = i div L * L"
    have le: "k \<le> i" unfolding k_def by simp
    have "i mod L < L" using assms by simp
    moreover have "i = k + i mod L" unfolding k_def by simp
    ultimately have lt: "i < k + L" by linarith
    have "y \<in> set (take L (drop k ys))"
      using nth_in_window [OF le lt i(1)] i(2) by simp
    then show "y \<in> (\<Union>N. set (take L (drop (N * L) ys)))"
      unfolding k_def by blast
  qed
qed


text \<open>
  Claim C4. For a collection endpoint with a fixed filter and the stored order, the identities
  on page \<open>N\<close> and on page \<open>N + 1\<close> are disjoint, and the pages together hold exactly the
  identities of the filtered rows. The identities of the table are unique and the page size is
  positive.
\<close>

theorem pages_partition_the_query:
  assumes "distinct (map (identity t0 m) (db w m))" and "0 < L"
  shows "page_ids t0 m L N (filter flt (db w m))
           \<inter> page_ids t0 m L (Suc N) (filter flt (db w m)) = {}
       \<and> (\<Union>k. page_ids t0 m L k (filter flt (db w m)))
           = identity t0 m ` set (filter flt (db w m))"
proof -
  let ?q = "filter flt (db w m)"
  let ?ys = "map (identity t0 m) ?q"
  have d: "distinct ?ys" using assms(1) by (rule distinct_map_filter)
  have "set (take L (drop (N * L) ?ys)) \<inter> set (take L (drop (L + N * L) ?ys)) = {}"
    using d by (rule take_drop_disjoint)
  then have disj: "page_ids t0 m L N ?q \<inter> page_ids t0 m L (Suc N) ?q = {}"
    using assms(2) by (simp add: page_ids_eq)
  have "(\<Union>k. set (take L (drop (k * L) ?ys))) = set ?ys"
    using assms(2) by (rule pages_cover)
  then have "(\<Union>k. page_ids t0 m L k ?q) = identity t0 m ` set ?q"
    using assms(2) by (simp add: page_ids_eq)
  with disj show ?thesis by simp
qed

theorem pages_partition_the_query_witness:
  "page_ids (import_time test_env) Person 2 0
       [[(''id'', PStr ''a'')], [(''id'', PStr ''b'')], [(''id'', PStr ''c'')]]
     \<inter> page_ids (import_time test_env) Person 2 (Suc 0)
       [[(''id'', PStr ''a'')], [(''id'', PStr ''b'')], [(''id'', PStr ''c'')]] = {}"
proof -
  let ?w = "empty_world\<lparr>db := (\<lambda>m. [[(''id'', PStr ''a'')], [(''id'', PStr ''b'')],
      [(''id'', PStr ''c'')]])\<rparr>"
  have "distinct (map (identity (import_time test_env) Person) (db ?w Person))"
    by (simp add: identity_def Column_def getattr_def)
  moreover have "(0::nat) < 2" by simp
  ultimately show ?thesis
    using pages_partition_the_query
      [of "import_time test_env" Person ?w 2 0 "\<lambda>r. True"]
    by simp
qed

subsection \<open>Construction and insertion of rows\<close>

lemma identity_Person: "identity t0 Person r = [getattr r ''id'']"
  by (simp add: identity_def Column_def)

lemma identity_Book: "identity t0 Book r = [getattr r ''id'']"
  by (simp add: identity_def Column_def)

lemma identity_Publisher: "identity t0 Publisher r = [getattr r ''id'']"
  by (simp add: identity_def Column_def)

lemma identity_Review: "identity t0 Review r = [getattr r ''reader_id'', getattr r ''book_id'']"
  by (simp add: identity_def Column_def)

lemma new_Person:
  assumes "map_of kw ''id'' = None"
  shows "snd (new_instance env Person kw n) = Suc n"
    and "getattr (fst (new_instance env Person kw n)) ''id'' = PStr (uuid4 env n)"
  using assms
  by (simp_all add: SAFRSBase_init_def generates_id_def init_attr_def Column_def getattr_def
        Let_def)

lemma new_Book:
  assumes "map_of kw ''id'' = None"
  shows "snd (new_instance env Book kw n) = Suc n"
    and "getattr (fst (new_instance env Book kw n)) ''id'' = PStr (uuid4 env n)"
  using assms
  by (simp_all add: SAFRSBase_init_def generates_id_def init_attr_def Column_def getattr_def
        Let_def)

lemma new_Review:
  "snd (new_instance env Review kw n) = n"
  "getattr (fst (new_instance env Review kw n)) ''reader_id'' = getattr kw ''reader_id''"
  "getattr (fst (new_instance env Review kw n)) ''book_id'' = getattr kw ''book_id''"
  by (simp_all add: SAFRSBase_init_def generates_id_def init_attr_def Column_def getattr_def
        Let_def split: option.splits)

lemma map_of_pop_key: "k \<noteq> k' \<Longrightarrow> map_of (pop_key kw k') k = map_of kw k"
  by (induction kw) (auto simp: pop_key_def)

lemma new_Publisher:
  assumes "map_of kw ''id'' = None"
  shows "snd (new_instance env Publisher kw n) = n"
    and "getattr (fst (new_instance env Publisher kw n)) ''id'' = PNone"
proof -
  have "map_of (pop_key kw ''custom_field'') ''id'' = None"
    using assms by (simp add: map_of_pop_key)
  then show "snd (new_instance env Publisher kw n) = n"
    and "getattr (fst (new_instance env Publisher kw n)) ''id'' = PNone"
    by (simp_all add: Publisher_init_def SAFRSBase_init_def generates_id_def
        init_attr_def Column_def getattr_def Let_def)
qed

lemma getattr_setitem: "getattr (setitem d k v) k' = (if k' = k then v else getattr d k')"
  by (induction d) (auto simp: getattr_def)

lemma fold_rowid_mono:
  "a \<le> fold (\<lambda>r a. case getattr r ''id'' of PInt i \<Rightarrow> max a (i + 1) | _ \<Rightarrow> a) rows a"
proof (induction rows arbitrary: a)
  case Nil
  show ?case by simp
next
  case (Cons r rows)
  show ?case
    using Cons [of "case getattr r ''id'' of PInt i \<Rightarrow> max a (i + 1) | _ \<Rightarrow> a"]
    by (auto split: pyval.splits)
qed

lemma fold_rowid_above:
  "r \<in> set rows \<Longrightarrow> getattr r ''id'' = PInt i \<Longrightarrow>
     i < fold (\<lambda>r a. case getattr r ''id'' of PInt i \<Rightarrow> max a (i + 1) | _ \<Rightarrow> a) rows a"
proof (induction rows arbitrary: a)
  case Nil
  then show ?case by simp
next
  case (Cons x rows)
  show ?case
  proof (cases "r = x")
    case True
    then show ?thesis
      using Cons.prems fold_rowid_mono [of "max a (i + 1)" rows] by simp
  next
    case False
    then show ?thesis using Cons by simp
  qed
qed

lemma next_rowid_fresh: "r \<in> set rows \<Longrightarrow> getattr r ''id'' \<noteq> PInt (next_rowid rows)"
  using fold_rowid_above [of r rows "next_rowid rows" 1] by (auto simp: next_rowid_def)

lemma autoincrement_Person: "autoincrement t0 Person st self = self"
  by (simp add: autoincrement_def Column_def)

lemma autoincrement_Book: "autoincrement t0 Book st self = self"
  by (simp add: autoincrement_def Column_def)

lemma autoincrement_Review: "autoincrement t0 Review st self = self"
  by (simp add: autoincrement_def Column_def)

lemma autoincrement_Publisher:
  "getattr self ''id'' = PNone \<Longrightarrow>
     autoincrement t0 Publisher st self = setitem self ''id'' (PInt (next_rowid (st Publisher)))"
  by (simp add: autoincrement_def Column_def)

lemma insert_row_ok:
  assumes "autoincrement t0 m st self = row"
    and "PNone \<notin> set (identity t0 m row)"
    and "identity t0 m row \<notin> identity t0 m ` set (st m)"
  shows "insert_row t0 m self st = Inr (row, st(m := st m @ [row]))"
  using assms by (simp add: insert_row_def Let_def)

lemma insert_row_Inr:
  assumes "insert_row t0 m self st = Inr (row, st')"
  shows "st' = st(m := st m @ [row]) \<and> identity t0 m row \<notin> identity t0 m ` set (st m)"
  using assms by (auto simp: insert_row_def Let_def split: if_splits)

lemma insert_row_Inl_unique:
  assumes "identity t0 m self \<in> identity t0 m ` set (st m)" "autoincrement t0 m st self = self"
  shows "\<exists>e. insert_row t0 m self st = Inl e"
  using assms by (auto simp: insert_row_def Let_def)

lemma seed_iteration_ok:
  assumes inj: "inj (uuid4 env)" and inv: "ids_drawn env w"
  shows "\<exists>w'. seed_iteration env i w = Inr w' \<and> ids_drawn env w'
           \<and> length (db w' Person) = length (db w Person) + 2
           \<and> length (db w' Book) = length (db w Book) + 1
           \<and> length (db w' Publisher) = length (db w Publisher) + 1
           \<and> length (db w' Review) = length (db w Review) + 1"
proof -
  define t0 where "t0 = import_time env"
  define n where "n = uuids w"
  define reader where "reader = fst (new_instance env Person
             [(''name'', PStr (''Reader '' @ str_nat i)),
              (''email'', PStr (''reader_email'' @ str_nat i)),
              (''password'', PStr (sha256_hexdigest env (replicate i 0)))] n)"
  define author where "author = fst (new_instance env Person
             [(''name'', PStr (''Author '' @ str_nat i)),
              (''email'', PStr (''author_email'' @ str_nat i))] (Suc n))"
  define book where "book = fst (new_instance env Book
             [(''title'', PStr (''book_title'' @ str_nat i))] (Suc (Suc n)))"
  define review where "review = fst (new_instance env Review
             [(''reader_id'', PStr (uuid4 env n)),
              (''book_id'', PStr (uuid4 env (Suc (Suc n)))),
              (''review'', PStr (''review '' @ str_nat i))] (Suc (Suc (Suc n))))"
  define publisher where "publisher = fst (new_instance env Publisher
             [(''name'', PStr (''name'' @ str_nat i))] (Suc (Suc (Suc n))))"
  have kw1: "getattr [(''reader_id'', a), (''book_id'', b), (''review'', c)] ''reader_id'' = a"
    and kw2: "getattr [(''reader_id'', a), (''book_id'', b), (''review'', c)] ''book_id'' = b"
    for a b c
    by (simp_all add: getattr_def)
  have rid: "getattr reader ''id'' = PStr (uuid4 env n)"
    and aid: "getattr author ''id'' = PStr (uuid4 env (Suc n))"
    and bid: "getattr book ''id'' = PStr (uuid4 env (Suc (Suc n)))"
    and pid: "getattr publisher ''id'' = PNone"
    and vrid: "getattr review ''reader_id'' = PStr (uuid4 env n)"
    and vbid: "getattr review ''book_id'' = PStr (uuid4 env (Suc (Suc n)))"
    unfolding reader_def author_def book_def publisher_def review_def
    by (simp_all add: new_Person new_Book new_Publisher new_Review kw1 kw2
          del: new_instance.simps)
  have invP: "\<forall>r \<in> set (db w Person). \<exists>j < n. getattr r ''id'' = PStr (uuid4 env j)"
    and invB: "\<forall>r \<in> set (db w Book). \<exists>j < n. getattr r ''id'' = PStr (uuid4 env j)"
    and invR: "\<forall>r \<in> set (db w Review). \<exists>j < n. getattr r ''book_id'' = PStr (uuid4 env j)"
    using inv by (simp_all add: ids_drawn_def n_def)
  have fresh: "getattr r ''id'' \<noteq> PStr (uuid4 env k)"
    if "r \<in> set (db w Person) \<or> r \<in> set (db w Book)" "n \<le> k" for r k
  proof -
    have "\<exists>j < n. getattr r ''id'' = PStr (uuid4 env j)"
      using that(1) invP invB by (elim disjE) (rule bspec, assumption+)+
    then obtain j where "j < n" "getattr r ''id'' = PStr (uuid4 env j)" by (elim exE conjE)
    then show ?thesis using that(2) by (simp add: inj_eq [OF inj])
  qed
  have vfresh: "getattr r ''book_id'' \<noteq> PStr (uuid4 env k)"
    if "r \<in> set (db w Review)" "n \<le> k" for r k
  proof -
    have "\<exists>j < n. getattr r ''book_id'' = PStr (uuid4 env j)"
      using invR that(1) by (rule bspec)
    then obtain j where "j < n" "getattr r ''book_id'' = PStr (uuid4 env j)" by (elim exE conjE)
    then show ?thesis using that(2) by (simp add: inj_eq [OF inj])
  qed
  have fP: "(PStr (uuid4 env k) = getattr r ''id'') = False"
    if "r \<in> set (db w Person)" "n \<le> k" for r k
    using fresh [of r k] that by auto
  have fB: "(PStr (uuid4 env k) = getattr r ''id'') = False"
    if "r \<in> set (db w Book)" "n \<le> k" for r k
    using fresh [of r k] that by auto
  have fR: "(PStr (uuid4 env k) = getattr r ''book_id'') = False"
    if "r \<in> set (db w Review)" "n \<le> k" for r k
    using vfresh [of r k] that by auto
  define s1 where "s1 = (db w)(Person := db w Person @ [reader])"
  define s2 where "s2 = s1(Person := s1 Person @ [author])"
  define publisher' where
    "publisher' = setitem publisher ''id'' (PInt (next_rowid (s2 Publisher)))"
  define s3 where "s3 = s2(Publisher := s2 Publisher @ [publisher'])"
  define book3 where "book3 = setitem (setitem (setitem book ''publisher_id''
      (getattr publisher' ''id'')) ''reader_id'' (getattr reader ''id'')) ''author_id''
      (getattr author ''id'')"
  define s4 where "s4 = s3(Book := s3 Book @ [book3])"
  define s5 where "s5 = s4(Review := s4 Review @ [review])"
  have r1: "insert_row t0 Person reader (db w) = Inr (reader, s1)"
    unfolding s1_def
    by (rule insert_row_ok)
       (auto simp: autoincrement_Person identity_Person rid fP)
  have r2: "insert_row t0 Person author s1 = Inr (author, s2)"
    unfolding s2_def
  proof (rule insert_row_ok)
    show "autoincrement t0 Person s1 author = author" by (rule autoincrement_Person)
    show "PNone \<notin> set (identity t0 Person author)" by (simp add: identity_Person aid)
    have "uuid4 env (Suc n) \<noteq> uuid4 env n" by (simp add: inj_eq [OF inj])
    then show "identity t0 Person author \<notin> identity t0 Person ` set (s1 Person)"
      by (auto simp: identity_Person aid rid s1_def fP)
  qed
  have r3: "insert_row t0 Publisher publisher s2 = Inr (publisher', s3)"
    unfolding s3_def
  proof (rule insert_row_ok)
    show "autoincrement t0 Publisher s2 publisher = publisher'"
      unfolding publisher'_def using pid by (rule autoincrement_Publisher)
    show "PNone \<notin> set (identity t0 Publisher publisher')"
      by (simp add: identity_Publisher publisher'_def getattr_setitem)
    show "identity t0 Publisher publisher' \<notin> identity t0 Publisher ` set (s2 Publisher)"
    proof
      assume "identity t0 Publisher publisher' \<in> identity t0 Publisher ` set (s2 Publisher)"
      then obtain x where x: "x \<in> set (s2 Publisher)"
        "getattr x ''id'' = PInt (next_rowid (s2 Publisher))"
        by (auto simp: identity_Publisher publisher'_def getattr_setitem)
      then show False using next_rowid_fresh [of x "s2 Publisher"] by simp
    qed
  qed
  have b3id: "getattr book3 ''id'' = PStr (uuid4 env (Suc (Suc n)))"
    by (simp add: book3_def getattr_setitem bid)
  have r4: "insert_row t0 Book book3 s3 = Inr (book3, s4)"
    unfolding s4_def
  proof (rule insert_row_ok)
    show "autoincrement t0 Book s3 book3 = book3" by (rule autoincrement_Book)
    show "PNone \<notin> set (identity t0 Book book3)" by (simp add: identity_Book b3id)
    show "identity t0 Book book3 \<notin> identity t0 Book ` set (s3 Book)"
      by (auto simp: identity_Book b3id s3_def s2_def s1_def fB)
  qed
  have r5: "insert_row t0 Review review s4 = Inr (review, s5)"
    unfolding s5_def
  proof (rule insert_row_ok)
    show "autoincrement t0 Review s4 review = review" by (rule autoincrement_Review)
    show "PNone \<notin> set (identity t0 Review review)"
      by (simp add: identity_Review vrid vbid)
    show "identity t0 Review review \<notin> identity t0 Review ` set (s4 Review)"
      by (auto simp: identity_Review vrid vbid s4_def s3_def s2_def s1_def fR)
  qed
  have ni1: "new_instance env Person
             [(''name'', PStr (''Reader '' @ str_nat i)),
              (''email'', PStr (''reader_email'' @ str_nat i)),
              (''password'', PStr (sha256_hexdigest env (replicate i 0)))] (uuids w)
          = (reader, Suc n)"
    by (simp add: reader_def n_def new_Person prod_eq_iff del: new_instance.simps)
  have ni2: "new_instance env Person
             [(''name'', PStr (''Author '' @ str_nat i)),
              (''email'', PStr (''author_email'' @ str_nat i))] (Suc n)
          = (author, Suc (Suc n))"
    by (simp add: author_def new_Person prod_eq_iff del: new_instance.simps)
  have ni3: "new_instance env Book
             [(''title'', PStr (''book_title'' @ str_nat i))] (Suc (Suc n))
          = (book, Suc (Suc (Suc n)))"
    by (simp add: book_def new_Book prod_eq_iff del: new_instance.simps)
  have ni4: "new_instance env Review
             [(''reader_id'', getattr reader ''id''),
              (''book_id'', getattr book ''id''),
              (''review'', PStr (''review '' @ str_nat i))] (Suc (Suc (Suc n)))
          = (review, Suc (Suc (Suc n)))"
    by (simp add: review_def rid bid new_Review prod_eq_iff del: new_instance.simps)
  have ni5: "new_instance env Publisher
             [(''name'', PStr (''name'' @ str_nat i))] (Suc (Suc (Suc n)))
          = (publisher, Suc (Suc (Suc n)))"
    by (simp add: publisher_def new_Publisher prod_eq_iff del: new_instance.simps)
  have run: "seed_iteration env i w = Inr (w\<lparr>db := s5, uuids := Suc (Suc (Suc n))\<rparr>)"
    unfolding seed_iteration_def Let_def
    apply (simp only: ni1 prod.case)
    apply (simp only: ni2 prod.case)
    apply (simp only: ni3 prod.case)
    apply (simp only: ni4 prod.case)
    apply (simp only: ni5 prod.case)
    apply (simp only: t0_def [symmetric] r1 sum.case prod.case)
    apply (simp only: r2 sum.case prod.case)
    apply (simp only: r3 sum.case prod.case)
    apply (simp only: book3_def [symmetric] r4 sum.case prod.case)
    apply (simp only: r5 sum.case prod.case)
    done
  have tabs: "s5 Person = db w Person @ [reader, author]"
    "s5 Book = db w Book @ [book3]"
    "s5 Publisher = db w Publisher @ [publisher']"
    "s5 Review = db w Review @ [review]"
    by (simp_all add: s5_def s4_def s3_def s2_def s1_def)
  have lt3: "j < Suc (Suc (Suc n))" if "j < n" for j using that by simp
  have dP: "\<exists>j < Suc (Suc (Suc n)). getattr r ''id'' = PStr (uuid4 env j)"
    if mem: "r \<in> set (s5 Person)" for r
  proof -
    consider "r \<in> set (db w Person)" | "r = reader" | "r = author"
      using mem by (auto simp: tabs)
    then show ?thesis
    proof cases
      case 1
      then obtain j where "j < n" "getattr r ''id'' = PStr (uuid4 env j)"
        using invP by blast
      then show ?thesis using lt3 by blast
    next
      case 2
      have "n < Suc (Suc (Suc n))" by simp
      then show ?thesis using 2 rid by blast
    next
      case 3
      have "Suc n < Suc (Suc (Suc n))" by simp
      then show ?thesis using 3 aid by blast
    qed
  qed
  have dB: "\<exists>j < Suc (Suc (Suc n)). getattr r ''id'' = PStr (uuid4 env j)"
    if mem: "r \<in> set (s5 Book)" for r
  proof -
    consider "r \<in> set (db w Book)" | "r = book3"
      using mem by (auto simp: tabs)
    then show ?thesis
    proof cases
      case 1
      then obtain j where "j < n" "getattr r ''id'' = PStr (uuid4 env j)"
        using invB by blast
      then show ?thesis using lt3 by blast
    next
      case 2
      have "Suc (Suc n) < Suc (Suc (Suc n))" by simp
      then show ?thesis using 2 b3id by blast
    qed
  qed
  have dR: "\<exists>j < Suc (Suc (Suc n)). getattr r ''book_id'' = PStr (uuid4 env j)"
    if mem: "r \<in> set (s5 Review)" for r
  proof -
    consider "r \<in> set (db w Review)" | "r = review"
      using mem by (auto simp: tabs)
    then show ?thesis
    proof cases
      case 1
      then obtain j where "j < n" "getattr r ''book_id'' = PStr (uuid4 env j)"
        using invR by blast
      then show ?thesis using lt3 by blast
    next
      case 2
      have "Suc (Suc n) < Suc (Suc (Suc n))" by simp
      then show ?thesis using 2 vbid by blast
    qed
  qed
  have "ids_drawn env (w\<lparr>db := s5, uuids := Suc (Suc (Suc n))\<rparr>)"
    unfolding ids_drawn_def using dP dB dR by simp
  then show ?thesis
    using run by (simp add: tabs)
qed

subsection \<open>The seed routine\<close>

lemma for_each_seed_ok:
  assumes inj: "inj (uuid4 env)" and inv: "ids_drawn env w"
  shows "\<exists>w'. for_each (seed_iteration env) xs w = Inr w' \<and> ids_drawn env w'
           \<and> length (db w' Person) = length (db w Person) + 2 * length xs
           \<and> length (db w' Book) = length (db w Book) + length xs
           \<and> length (db w' Publisher) = length (db w Publisher) + length xs
           \<and> length (db w' Review) = length (db w Review) + length xs"
  using inv
proof (induction xs arbitrary: w)
  case Nil
  then show ?case by simp
next
  case (Cons x xs)
  obtain w1 where w1: "seed_iteration env x w = Inr w1" "ids_drawn env w1"
    "length (db w1 Person) = length (db w Person) + 2"
    "length (db w1 Book) = length (db w Book) + 1"
    "length (db w1 Publisher) = length (db w Publisher) + 1"
    "length (db w1 Review) = length (db w Review) + 1"
    using seed_iteration_ok [OF inj Cons.prems, of x] by blast
  obtain w' where w': "for_each (seed_iteration env) xs w1 = Inr w'" "ids_drawn env w'"
    "length (db w' Person) = length (db w1 Person) + 2 * length xs"
    "length (db w' Book) = length (db w1 Book) + length xs"
    "length (db w' Publisher) = length (db w1 Publisher) + length xs"
    "length (db w' Review) = length (db w1 Review) + length xs"
    using Cons.IH [OF w1(2)] by blast
  show ?case using w1 w' by simp
qed

lemma ids_drawn_create_all: "ids_drawn env (create_all w)"
  by (simp add: ids_drawn_def create_all_def)

lemma seed_ok:
  assumes "inj (uuid4 env)"
  shows "\<exists>w'. seed env n (create_all w) = Inr w'
           \<and> length (db w' Person) = 2 * n \<and> length (db w' Book) = n
           \<and> length (db w' Publisher) = n \<and> length (db w' Review) = n"
  using for_each_seed_ok [OF assms ids_drawn_create_all, of "[0..<n]" w]
  by (auto simp: seed_def create_all_def)

lemma collection_total_Inr:
  "collection_total env m (Inr w) = Some (length (db w m))"
  by (simp add: collection_total_def api_get_def paginate_def jsonapi_format_response_def
        Let_def)

lemma seed_totals:
  assumes "inj (uuid4 env)"
  shows "collection_total env Person (seed env n (create_all w)) = Some (2 * n)"
    and "collection_total env Book (seed env n (create_all w)) = Some n"
    and "collection_total env Publisher (seed env n (create_all w)) = Some n"
    and "collection_total env Review (seed env n (create_all w)) = Some n"
  using seed_ok [OF assms, of n w] by (auto simp: collection_total_Inr)

lemma inj_test_uuid4: "inj (uuid4 test_env)"
  by (auto simp: inj_def test_env_def dest: arg_cong [where f = length])

text \<open>
  Claim C2 says that after seeding, the collection endpoint of each seeded entity reports the
  seed count, so that a seed count of 5 gives 5 People. Amended: the loop of \<^verbatim>\<open>start_api\<close>
  creates two people (a reader and an author), one book, one publisher and one review per pass.
  After \<open>n\<close> passes over the empty database the endpoints of Book, Publisher and Review report
  \<open>n\<close> and the endpoint of Person reports \<open>2 * n\<close>; with the constant of the source, 400
  people. The identifiers generated are pairwise different.
\<close>

theorem seed_collection_totals:
  assumes "inj (uuid4 env)"
  shows "collection_total env Person (seed env n (create_all w)) = Some (2 * n)
       \<and> collection_total env Book (seed env n (create_all w)) = Some n
       \<and> collection_total env Publisher (seed env n (create_all w)) = Some n
       \<and> collection_total env Review (seed env n (create_all w)) = Some n
       \<and> collection_total env Person (start_api env w) = Some 400"
  using seed_totals [OF assms, of n w] seed_totals(1) [OF assms, of NR_INSTANCES w]
  by (simp add: start_api_def NR_INSTANCES_def)

theorem seed_collection_totals_witness:
  "collection_total test_env Person (seed test_env 5 (create_all empty_world)) = Some 10
   \<and> collection_total test_env Book (seed test_env 5 (create_all empty_world)) = Some 5"
  using seed_collection_totals [OF inj_test_uuid4, of 5 empty_world] by simp

theorem seed_people_total_counterexample:
  "collection_total test_env Person (seed test_env 5 (create_all empty_world)) \<noteq> Some 5
   \<and> collection_total test_env Person (start_api test_env empty_world) \<noteq> Some NR_INSTANCES"
  using seed_totals(1) [OF inj_test_uuid4, of 5 empty_world]
    seed_totals(1) [OF inj_test_uuid4, of NR_INSTANCES empty_world]
  by (simp add: start_api_def NR_INSTANCES_def)

subsection \<open>The key of a review\<close>

lemma insert_row_keeps_unique:
  assumes "insert_row t0 m' self st = Inr (row, st')" and "identities_unique t0 m st"
  shows "identities_unique t0 m st'"
proof -
  have st': "st' = st(m' := st m' @ [row])"
    and fresh: "identity t0 m' row \<notin> identity t0 m' ` set (st m')"
    using insert_row_Inr [OF assms(1)] by simp_all
  show ?thesis
  proof (cases "m = m'")
    case True
    then show ?thesis using assms(2) fresh by (simp add: identities_unique_def st')
  next
    case False
    then show ?thesis using assms(2) by (simp add: identities_unique_def st')
  qed
qed

lemma insert_row_Inl_store:
  "insert_row t0 m self st = Inl exc \<Longrightarrow> \<exists>msg. exc = IntegrityError msg"
  by (auto simp: insert_row_def Let_def split: if_splits)

lemma api_post_keeps_unique:
  assumes "identities_unique (import_time env) m (db w)"
  shows "identities_unique (import_time env) m (db (snd (api_post env m' kwargs w)))"
proof (cases "insert_row (import_time env) m' (fst (new_instance env m' kwargs (uuids w))) (db w)")
  case (Inl exc)
  then show ?thesis using assms by (simp add: api_post_def split_beta)
next
  case (Inr p)
  obtain row st where p: "p = (row, st)" by (cases p)
  have "identities_unique (import_time env) m st"
    using insert_row_keeps_unique [OF Inr [unfolded p] assms] .
  then show ?thesis using Inr p by (simp add: api_post_def split_beta)
qed

lemma api_get_db: "db (snd (api_get env m flt rq w)) = db w"
  by (simp add: api_get_def jsonapi_format_response_def split: sum.splits prod.splits)

lemma collection_request_keeps_unique:
  assumes "identities_unique (import_time env) m (db w)"
  shows "identities_unique (import_time env) m (db (snd (collection_request env rq w)))"
  using assms api_post_keeps_unique [OF assms]
  by (simp add: collection_request_def api_get_db)

lemma send_mail_db: "db (snd (call_rpc (send_mail self email w))) = db w"
  by (simp add: send_mail_def call_rpc_def open_append_def write_file_def Let_def
        split: sum.splits)

lemma my_rpc_db: "db (snd (call_rpc (my_rpc pg fmt cls args kwargs w))) = db w"
  using my_rpc_returns [of pg fmt cls args kwargs w] by (auto simp: call_rpc_def)

lemma seed_iteration_keeps_unique:
  assumes "seed_iteration env i w = Inr w'"
    and "identities_unique (import_time env) m (db w)"
  shows "identities_unique (import_time env) m (db w')"
proof -
  from assms(1) obtain x1 s1 x2 s2 x3 s3 y4 x4 s4 x5 y5 y1 y2 y3 where
    i1: "insert_row (import_time env) Person y1 (db w) = Inr (x1, s1)" and
    i2: "insert_row (import_time env) Person y2 s1 = Inr (x2, s2)" and
    i3: "insert_row (import_time env) Publisher y3 s2 = Inr (x3, s3)" and
    i4: "insert_row (import_time env) Book y4 s3 = Inr (x4, s4)" and
    i5: "insert_row (import_time env) Review y5 s4 = Inr (x5, db w')"
    unfolding seed_iteration_def Let_def split_beta
    by (fastforce split: sum.splits)
  show ?thesis
    using assms(2) i1 i2 i3 i4 i5 by (blast intro: insert_row_keeps_unique)
qed

lemma perform_keeps_unique:
  assumes "identities_unique (import_time env) m (db w)"
  shows "identities_unique (import_time env) m (db (perform env op w))"
proof (cases op)
  case (Collection rq)
  then show ?thesis using collection_request_keeps_unique [OF assms] by simp
next
  case (SendMail self email)
  then show ?thesis using assms by (simp add: send_mail_db)
next
  case (MyRpc args kwargs rq)
  then show ?thesis using assms by (simp add: my_rpc_db)
next
  case (SeedIteration i)
  show ?thesis
  proof (cases "seed_iteration env i w")
    case (Inl exc)
    then show ?thesis using assms SeedIteration by simp
  next
    case (Inr w')
    then show ?thesis
      using seed_iteration_keeps_unique [OF Inr assms] SeedIteration by simp
  qed
qed

lemma reachable_unique:
  "identities_unique (import_time env) m (db w) \<Longrightarrow>
     identities_unique (import_time env) m (db (fold (perform env) ops w))"
  by (induction ops arbitrary: w) (simp_all add: perform_keeps_unique)

lemma duplicate_post_rejected:
  assumes "r \<in> set (db w m)"
    and "identity (import_time env) m (fst (new_instance env m kwargs (uuids w)))
           = identity (import_time env) m r"
    and "autoincrement (import_time env) m (db w) (fst (new_instance env m kwargs (uuids w)))
           = fst (new_instance env m kwargs (uuids w))"
  shows "(\<exists>msg. fst (api_post env m kwargs w) = ClientError msg)
       \<and> db (snd (api_post env m kwargs w)) = db w"
proof -
  have "identity (import_time env) m (fst (new_instance env m kwargs (uuids w)))
          \<in> identity (import_time env) m ` set (db w m)"
    using assms(1,2) by (metis imageI)
  then obtain e where
    "insert_row (import_time env) m (fst (new_instance env m kwargs (uuids w))) (db w) = Inl e"
    using insert_row_Inl_unique [OF _ assms(3)] by blast
  then show ?thesis by (simp add: api_post_def split_beta)
qed

lemma unique_pairs:
  assumes "identities_unique t0 Review st" "i < length (st Review)" "j < length (st Review)"
    "i \<noteq> j"
  shows "(getattr (st Review ! i) ''reader_id'', getattr (st Review ! i) ''book_id'')
       \<noteq> (getattr (st Review ! j) ''reader_id'', getattr (st Review ! j) ''book_id'')"
proof -
  have "map (identity t0 Review) (st Review) ! i \<noteq> map (identity t0 Review) (st Review) ! j"
    using assms by (simp add: identities_unique_def distinct_conv_nth del: nth_map)
  then show ?thesis using assms(2,3) by (simp add: identity_Review)
qed

text \<open>
  Claim C8. Any two different Review rows of the store differ in their (reader, book) key; a
  creation of a Review whose key is already present is refused and leaves the store as it was;
  and every operation keeps the keys unique, so they are unique in every state reached from
  the empty database.
\<close>

theorem review_keys_stay_unique:
  assumes "identities_unique (import_time env) Review (db w)"
  shows "identities_unique (import_time env) Review (db (perform env op w))
       \<and> (\<forall>i j. i < length (db w Review) \<and> j < length (db w Review) \<and> i \<noteq> j \<longrightarrow>
             (getattr (db w Review ! i) ''reader_id'', getattr (db w Review ! i) ''book_id'')
               \<noteq> (getattr (db w Review ! j) ''reader_id'', getattr (db w Review ! j) ''book_id''))
       \<and> (\<forall>r \<in> set (db w Review).
             getattr kwargs ''reader_id'' = getattr r ''reader_id'' \<and>
             getattr kwargs ''book_id'' = getattr r ''book_id'' \<longrightarrow>
             (\<exists>msg. fst (api_post env Review kwargs w) = ClientError msg) \<and>
             db (snd (api_post env Review kwargs w)) = db w)
       \<and> identities_unique (import_time env) Review
             (db (fold (perform env) ops (create_all w)))"
proof -
  have a: "identities_unique (import_time env) Review (db (perform env op w))"
    using assms by (rule perform_keeps_unique)
  have b: "(getattr (db w Review ! i) ''reader_id'', getattr (db w Review ! i) ''book_id'')
               \<noteq> (getattr (db w Review ! j) ''reader_id'', getattr (db w Review ! j) ''book_id'')"
    if "i < length (db w Review)" "j < length (db w Review)" "i \<noteq> j" for i j
    using unique_pairs [OF assms that] .
  have c: "(\<exists>msg. fst (api_post env Review kwargs w) = ClientError msg) \<and>
             db (snd (api_post env Review kwargs w)) = db w"
    if "r \<in> set (db w Review)" "getattr kwargs ''reader_id'' = getattr r ''reader_id''"
      "getattr kwargs ''book_id'' = getattr r ''book_id''" for r
  proof (rule duplicate_post_rejected [OF that(1)])
    show "identity (import_time env) Review (fst (new_instance env Review kwargs (uuids w)))
           = identity (import_time env) Review r"
      using that(2,3) by (simp add: identity_Review new_Review del: new_instance.simps)
    show "autoincrement (import_time env) Review (db w)
            (fst (new_instance env Review kwargs (uuids w)))
           = fst (new_instance env Review kwargs (uuids w))"
      by (rule autoincrement_Review)
  qed
  have "identities_unique (import_time env) Review (db (create_all w))"
    by (simp add: identities_unique_def create_all_def)
  then have d: "identities_unique (import_time env) Review
             (db (fold (perform env) ops (create_all w)))"
    by (rule reachable_unique)
  show ?thesis using a b c d by blast
qed

theorem review_keys_stay_unique_witness:
  "db (snd (api_post test_env Review [(''reader_id'', PStr ''r''), (''book_id'', PStr ''b'')]
        (empty_world\<lparr>db := (\<lambda>m. [[(''reader_id'', PStr ''r''), (''book_id'', PStr ''b'')]])\<rparr>)))
     = (\<lambda>m. [[(''reader_id'', PStr ''r''), (''book_id'', PStr ''b'')]])"
proof -
  let ?w = "empty_world\<lparr>db := (\<lambda>m. [[(''reader_id'', PStr ''r''), (''book_id'', PStr ''b'')]])\<rparr>"
  have "identities_unique (import_time test_env) Review (db ?w)"
    by (simp add: identities_unique_def)
  from review_keys_stay_unique [OF this, of _ "[(''reader_id'', PStr ''r''), (''book_id'', PStr ''b'')]"]
  show ?thesis by simp
qed

end
